theory Spec2Isabelle
  imports Complex_Main "HOL-Library.AList" "HOL-Library.Word"
begin

section \<open>The subscription multiplexer (src/public/channel.js)\<close>

text \<open>
  A JavaScript \<^verbatim>\<open>Map\<close> keeps its keys in insertion order, so the channel's
  \<^verbatim>\<open>pairListeners\<close> is an association list: \<^verbatim>\<open>has\<close> and \<^verbatim>\<open>get\<close> read the first
  entry of a key, \<^verbatim>\<open>set\<close> replaces the value of a key in place or appends a new entry
  at the end, \<^verbatim>\<open>keys()\<close> lists the keys in order.
\<close>

type_synonym 'v jsmap = "(string \<times> 'v) list"

definition Map_has :: "'v jsmap \<Rightarrow> string \<Rightarrow> bool" where
  "Map_has m k = (map_of m k \<noteq> None)"

definition Map_get :: "'v jsmap \<Rightarrow> string \<Rightarrow> 'v option" where
  "Map_get m k = map_of m k"

definition Map_set :: "'v jsmap \<Rightarrow> string \<Rightarrow> 'v \<Rightarrow> 'v jsmap" where
  "Map_set m k v = AList.update k v m"

definition Map_keys :: "'v jsmap \<Rightarrow> string list" where
  "Map_keys m = map fst m"

text \<open>
  A listener is a callback; the model identifies it by a number. \<^verbatim>\<open>null\<close> is a value
  of its own, because \<^verbatim>\<open>setSocket\<close> passes it.
\<close>

datatype listener = Fn nat | Null

datatype js_error = TypeError

text \<open>An element of a decoded update (a JSON array): a string, or any other value.\<close>

datatype elem = Str string | Other nat

text \<open>
  The subscribe request handed to \<^verbatim>\<open>JSON.stringify\<close>. An object is an association
  list of its properties, in order.
\<close>

record subscribeMessage =
  event :: string
  pair :: "string list"
  subscription :: "(string \<times> string) list"

record Channel =
  socket :: nat
  channelName :: string
  pairListeners :: "listener list jsmap"
  options :: "(string \<times> string) list"

text \<open>
  Modelled from the spec: \<^verbatim>\<open>EVENTS.SUBSCRIBE\<close> comes from \<^verbatim>\<open>./utils\<close>, which is not
  among the sources; the wire format of the spec gives its value, "subscribe".
\<close>

definition EVENTS_SUBSCRIBE :: string where
  "EVENTS_SUBSCRIBE = ''subscribe''"

text \<open>\<^verbatim>\<open>constructor(socket, channelName, options = {})\<close>\<close>

definition new_Channel :: "nat \<Rightarrow> string \<Rightarrow> (string \<times> string) list \<Rightarrow> Channel" where
  "new_Channel sock name opts =
     \<lparr>socket = sock, channelName = name, pairListeners = [], options = opts\<rparr>"

text \<open>
  \<^verbatim>\<open>{ name: this.channelName, ...this.options }\<close>: the spread writes every property of
  the options after \<^verbatim>\<open>name\<close>, so an option called \<^verbatim>\<open>name\<close> replaces the channel name.
\<close>

definition subscription_of :: "Channel \<Rightarrow> (string \<times> string) list" where
  "subscription_of ch =
     fold (\<lambda>(k, v) obj. AList.update k v obj) (options ch) [(''name'', channelName ch)]"

definition subscribeMessage_of :: "Channel \<Rightarrow> string list \<Rightarrow> subscribeMessage" where
  "subscribeMessage_of ch pairsBatch =
     \<lparr>event = EVENTS_SUBSCRIBE, pair = pairsBatch, subscription = subscription_of ch\<rparr>"

text \<open>
  \<^verbatim>\<open>_subscribe\<close> (an Isabelle name cannot start with an underscore). The loop splices
  the first 100 keys off the array until it is empty; every \<^verbatim>\<open>socket.send\<close> is
  returned as the pair of the socket and the message sent.
\<close>

function u_subscribe :: "Channel \<Rightarrow> string list \<Rightarrow> (nat \<times> subscribeMessage) list" where
  "u_subscribe ch pairsToSubscribe =
     (if length pairsToSubscribe \<noteq> 0
      then (socket ch, subscribeMessage_of ch (take 100 pairsToSubscribe))
             # u_subscribe ch (drop 100 pairsToSubscribe)
      else [])"
  by pat_completeness auto
termination
  by (relation "measure (\<lambda>(ch, ps). length ps)") auto

declare u_subscribe.simps [simp del]

text \<open>\<^verbatim>\<open>Array.isArray(pairs) ? pairs : [pairs]\<close>\<close>

datatype pairs_arg = Single string | Array "string list"

fun pairsArray_of :: "pairs_arg \<Rightarrow> string list" where
  "pairsArray_of (Single p) = [p]"
| "pairsArray_of (Array ps) = ps"

text \<open>
  The body of the \<^verbatim>\<open>forEach\<close> of \<^verbatim>\<open>subscribe\<close>, on the pair of the map and the array
  \<^verbatim>\<open>pairsToSubscribe\<close>. \<^verbatim>\<open>get(pair)\<close> is never undefined there: the key was found or
  has just been set.
\<close>

definition push_listener :: "listener list jsmap \<Rightarrow> string \<Rightarrow> listener \<Rightarrow> listener list jsmap" where
  "push_listener m k callback =
     (case Map_get m k of
        Some fns \<Rightarrow> Map_set m k (fns @ [callback])
      | None \<Rightarrow> m)"

definition subscribe_pair ::
  "listener \<Rightarrow> string \<Rightarrow> listener list jsmap \<times> string list \<Rightarrow> listener list jsmap \<times> string list" where
  "subscribe_pair callback p st =
     (let (m, pairsToSubscribe) = st;
          (m1, pairsToSubscribe1) =
             (if \<not> Map_has m p then (Map_set m p [], pairsToSubscribe @ [p])
              else (m, pairsToSubscribe))
      in (push_listener m1 p callback, pairsToSubscribe1))"

definition subscribe ::
  "Channel \<Rightarrow> pairs_arg \<Rightarrow> listener \<Rightarrow> bool \<Rightarrow> Channel \<times> (nat \<times> subscribeMessage) list" where
  "subscribe ch pairs callback resubscribe =
     (let pairsArray = pairsArray_of pairs;
          (m, pairsToSubscribe) =
             (if resubscribe then (pairListeners ch, pairsArray)
              else fold (subscribe_pair callback) pairsArray (pairListeners ch, []));
          ch1 = ch\<lparr>pairListeners := m\<rparr>
      in (ch1, u_subscribe ch1 pairsToSubscribe))"

definition setSocket :: "Channel \<Rightarrow> nat \<Rightarrow> Channel \<times> (nat \<times> subscribeMessage) list" where
  "setSocket ch sock =
     (let ch1 = ch\<lparr>socket := sock\<rparr>;
          pairs = Map_keys (pairListeners ch1)
      in subscribe ch1 (Array pairs) Null True)"

text \<open>
  \<^verbatim>\<open>forEach(fn => fn(data))\<close>: the calls made, in order. Calling \<^verbatim>\<open>null\<close> raises a
  TypeError, which ends the loop.
\<close>

fun forEach_call :: "listener list \<Rightarrow> 'd \<Rightarrow> (nat \<times> 'd) list \<times> js_error option" where
  "forEach_call [] d = ([], None)"
| "forEach_call (Null # fns) d = ([], Some TypeError)"
| "forEach_call (Fn f # fns) d = (let (cs, e) = forEach_call fns d in ((f, d) # cs, e))"

text \<open>
  \<^verbatim>\<open>const [pair] = message.slice(-1)\<close>: the last element of the update, undefined
  when the update is empty.
\<close>

definition last_elem :: "elem list \<Rightarrow> elem option" where
  "last_elem message = (if message = [] then None else Some (last message))"

text \<open>
  \<^verbatim>\<open>onMessageUpdate\<close>. \<^verbatim>\<open>normalizeMessage\<close> is not defined by the class (a channel
  of a concrete kind supplies it), so it is a parameter. Only a string can be a key of the
  map.
\<close>

definition onMessageUpdate ::
  "(elem list \<Rightarrow> 'd) \<Rightarrow> Channel \<Rightarrow> elem list \<Rightarrow> (nat \<times> 'd) list \<times> js_error option" where
  "onMessageUpdate normalizeMessage ch message =
     (case last_elem message of
        Some (Str p) \<Rightarrow>
          (if Map_has (pairListeners ch) p
           then (case Map_get (pairListeners ch) p of
                   Some fns \<Rightarrow> forEach_call fns (normalizeMessage message)
                 | None \<Rightarrow> ([], None))
           else ([], None))
      | _ \<Rightarrow> ([], None))"

text \<open>A caller's operations on a channel, run in order; the sends are collected.\<close>

datatype chan_op = Subscribe pairs_arg listener bool | SetSocket nat

fun chan_step :: "Channel \<Rightarrow> chan_op \<Rightarrow> Channel \<times> (nat \<times> subscribeMessage) list" where
  "chan_step ch (Subscribe pairs callback resubscribe) = subscribe ch pairs callback resubscribe"
| "chan_step ch (SetSocket sock) = setSocket ch sock"

fun chan_run :: "Channel \<Rightarrow> chan_op list \<Rightarrow> Channel \<times> (nat \<times> subscribeMessage) list" where
  "chan_run ch [] = (ch, [])"
| "chan_run ch (x # xs) =
     (let (ch1, out1) = chan_step ch x; (ch2, out2) = chan_run ch1 xs in (ch2, out1 @ out2))"

text \<open>Sample keys: 250 distinct strings.\<close>

definition sample_keys :: "nat \<Rightarrow> string list" where
  "sample_keys n = map (\<lambda>i. replicate (Suc i) (CHR ''k'')) [0..<n]"

section \<open>The stream client (dist/client.js)\<close>

datatype STATE =
    AUTHENTICATING | CONNECTED | CONNECTING | DISCONNECTED | WAITING_TO_CONNECT
  | WAITING_TO_RECONNECT

datatype EVENT = CLIENT_ERROR | MARKET_UPDATE | PAIR_UPDATE | STATE_CHANGE

datatype ERROR =
    BAD_NONCE | BAD_TOKEN | CONNECTION_REFUSED | MISSING_API_KEY | MISSING_SECRET_KEY
  | PROTOBUF | TOKEN_EXPIRED | UNKNOWN

text \<open>
  The session: the options of the client. Times are JavaScript numbers, in seconds; the
  model takes them as rationals (finite values, with exact arithmetic). The flag
  \<^verbatim>\<open>reconnect\<close> is named \<open>reconnect_opt\<close>, as the method of the same name keeps
  the name.
\<close>

record session_t =
  url :: string
  apiKey :: string
  secretKey :: string
  subscriptions :: "string list"
  reconnect_opt :: bool
  backoff :: bool
  reconnectTimeout :: rat
  maxReconnectTimeout :: rat
  verbose :: bool
  nonce :: "string option"

definition defaultOptions :: session_t where
  "defaultOptions =
     \<lparr>url = ''wss://sb.cryptowat.ch'', apiKey = [], secretKey = [], subscriptions = [],
      reconnect_opt = True, backoff = True, reconnectTimeout = 1, maxReconnectTimeout = 30,
      verbose = False, nonce = None\<rparr>"

text \<open>The options object given to the constructor: every property may be absent.\<close>

record opts_t =
  opt_url :: "string option"
  opt_apiKey :: "string option"
  opt_secretKey :: "string option"
  opt_subscriptions :: "string list option"
  opt_reconnect :: "bool option"
  opt_backoff :: "bool option"
  opt_reconnectTimeout :: "rat option"
  opt_maxReconnectTimeout :: "rat option"
  opt_verbose :: "bool option"
  opt_nonce :: "string option"

definition no_opts :: opts_t where
  "no_opts =
     \<lparr>opt_url = None, opt_apiKey = None, opt_secretKey = None, opt_subscriptions = None,
      opt_reconnect = None, opt_backoff = None, opt_reconnectTimeout = None,
      opt_maxReconnectTimeout = None, opt_verbose = None, opt_nonce = None\<rparr>"

record env_t =
  CW_API_KEY :: "string option"
  CW_SECRET_KEY :: "string option"

text \<open>
  Modelled from the spec: the enumeration \<^verbatim>\<open>AuthenticationResult.Status\<close> and the
  decoded message come from \<^verbatim>\<open>../modules/proto\<close> and \<^verbatim>\<open>./proto-builders\<close>, which are
  not among the sources. The status is one of the five named values of the spec's table,
  or any other number (a decoded enumeration field holds whatever number was on the
  wire).
\<close>

datatype Status =
    Status_AUTHENTICATED | Status_TOKEN_EXPIRED | Status_BAD_NONCE | Status_BAD_TOKEN
  | Status_UNKNOWN | Status_other nat

text \<open>The decoded message, by its \<^verbatim>\<open>body\<close>; the updates are opaque.\<close>

datatype StreamMessage =
    authenticationResult Status | marketUpdate nat | pairUpdate nat | other_body

text \<open>Every call of \<^verbatim>\<open>emit\<close>, with its arguments.\<close>

datatype emitted_t =
    Emit_STATE STATE "rat option"
  | Emit_ERROR ERROR
  | Emit_STATE_CHANGE STATE
  | Emit_CLIENT_ERROR ERROR
  | Emit_MARKET_UPDATE nat
  | Emit_PAIR_UPDATE nat

text \<open>
  What is handed to \<^verbatim>\<open>send\<close>: the authentication message, given by the api key, the
  nonce (the session's own, or the clock's) and the subscriptions (the token and the
  encoding are computed from these by the crypto library and the codec), or the bytes of
  a caller.
\<close>

datatype nonce_t = Given string | Clock

datatype outbound = AuthMessage string nonce_t "string list" | Raw "8 word list"

text \<open>
  A WebSocket: which of the handlers registered with \<^verbatim>\<open>once\<close> are still registered,
  and whether \<^verbatim>\<open>close()\<close> was called on it.
\<close>

record ws =
  once_open :: bool
  once_close :: bool
  once_error :: bool
  close_called :: bool

text \<open>
  The client. \<open>conn\<close> is the index of the current WebSocket among all those created
  (undefined before the first \<^verbatim>\<open>connect\<close>), \<open>uncaught\<close> the exceptions raised. A
  pending timeout is recorded in \<open>timers\<close> by the value of \<^verbatim>\<open>reconnectTimeout\<close>, in
  seconds, it was set from: the delay handed to \<^verbatim>\<open>setTimeout\<close> is the floating-point
  product of that value and 1000, which the model does not compute. The session object is
  the module's \<^verbatim>\<open>defaultOptions\<close> object itself, shared by every client of the module;
  the record holds its value, and what other clients write into it is an input of \<open>step\<close>
  below. The console is not modelled.
\<close>

record client =
  session :: session_t
  currentState :: STATE
  reconnectDisabled :: bool
  conn :: "nat option"
  sockets :: "ws list"
  timers :: "rat list"
  emitted :: "emitted_t list"
  sent :: "(nat \<times> outbound) list"
  uncaught :: "js_error list"

definition new_client :: "session_t \<Rightarrow> client" where
  "new_client s =
     \<lparr>session = s, currentState = WAITING_TO_CONNECT, reconnectDisabled = False, conn = None,
      sockets = [], timers = [], emitted = [], sent = [], uncaught = []\<rparr>"

text \<open>\<^verbatim>\<open>Object.assign(defaultOptions, opts)\<close>: a property of \<open>opts\<close> replaces the one
  of the target.\<close>

fun own :: "'a option \<Rightarrow> 'a \<Rightarrow> 'a" where
  "own (Some v) old = v"
| "own None old = old"

definition Object_assign :: "session_t \<Rightarrow> opts_t \<Rightarrow> session_t" where
  "Object_assign d opts =
     \<lparr>url = own (opt_url opts) (url d),
      apiKey = own (opt_apiKey opts) (apiKey d),
      secretKey = own (opt_secretKey opts) (secretKey d),
      subscriptions = own (opt_subscriptions opts) (subscriptions d),
      reconnect_opt = own (opt_reconnect opts) (reconnect_opt d),
      backoff = own (opt_backoff opts) (backoff d),
      reconnectTimeout = own (opt_reconnectTimeout opts) (reconnectTimeout d),
      maxReconnectTimeout = own (opt_maxReconnectTimeout opts) (maxReconnectTimeout d),
      verbose = own (opt_verbose opts) (verbose d),
      nonce = (case opt_nonce opts of Some n \<Rightarrow> Some n | None \<Rightarrow> nonce d)\<rparr>"

text \<open>
  The constructor, from the environment, the module's \<^verbatim>\<open>defaultOptions\<close> object as it
  is when the constructor runs, and the options. A variable of the environment counts when
  it is set and not empty. The constructor returns the object as it leaves it, and the
  client or the error thrown.
\<close>

definition constructor :: "env_t \<Rightarrow> session_t \<Rightarrow> opts_t \<Rightarrow> session_t \<times> (ERROR + client)" where
  "constructor env defaults opts =
     (let d1 = (case CW_API_KEY env of
                  Some v \<Rightarrow> (if v \<noteq> [] then defaults\<lparr>apiKey := v\<rparr> else defaults)
                | None \<Rightarrow> defaults);
          d2 = (case CW_SECRET_KEY env of
                  Some v \<Rightarrow> (if v \<noteq> [] then d1\<lparr>secretKey := v\<rparr> else d1)
                | None \<Rightarrow> d1);
          d3 = Object_assign d2 opts
      in (d3,
          if length (apiKey d3) = 0 then Inl MISSING_API_KEY
          else if length (secretKey d3) = 0 then Inl MISSING_SECRET_KEY
          else Inr (new_client d3)))"

text \<open>
  \<^verbatim>\<open>emit\<close> of a state: the listener registered by the constructor sets
  \<^verbatim>\<open>currentState\<close> and emits the state change. \<^verbatim>\<open>emit\<close> of an error: the listener
  emits the client error.
\<close>

definition emit_STATE :: "STATE \<Rightarrow> rat option \<Rightarrow> client \<Rightarrow> client" where
  "emit_STATE st arg c =
     c\<lparr>currentState := st, emitted := emitted c @ [Emit_STATE st arg, Emit_STATE_CHANGE st]\<rparr>"

definition emit_ERROR :: "ERROR \<Rightarrow> client \<Rightarrow> client" where
  "emit_ERROR e c = c\<lparr>emitted := emitted c @ [Emit_ERROR e, Emit_CLIENT_ERROR e]\<rparr>"

definition emit_other :: "emitted_t \<Rightarrow> client \<Rightarrow> client" where
  "emit_other x c = c\<lparr>emitted := emitted c @ [x]\<rparr>"

definition fresh_ws :: ws where
  "fresh_ws = \<lparr>once_open = True, once_close = True, once_error = True, close_called = False\<rparr>"

definition connect :: "client \<Rightarrow> client" where
  "connect c =
     (let c1 = c\<lparr>reconnectDisabled := False\<rparr>;
          c2 = emit_STATE CONNECTING None c1
      in c2\<lparr>conn := Some (length (sockets c2)), sockets := sockets c2 @ [fresh_ws]\<rparr>)"

definition send :: "client \<Rightarrow> outbound \<Rightarrow> client" where
  "send c data =
     (case conn c of
        None \<Rightarrow> c\<lparr>uncaught := uncaught c @ [TypeError]\<rparr>
      | Some w \<Rightarrow> c\<lparr>sent := sent c @ [(w, data)]\<rparr>)"

definition disconnect :: "client \<Rightarrow> client" where
  "disconnect c =
     (let c1 = c\<lparr>reconnectDisabled := True\<rparr>
      in case conn c1 of
           None \<Rightarrow> c1\<lparr>uncaught := uncaught c1 @ [TypeError]\<rparr>
         | Some w \<Rightarrow>
             (if w < length (sockets c1)
              then c1\<lparr>sockets := (sockets c1)[w := (sockets c1 ! w)\<lparr>close_called := True\<rparr>]\<rparr>
              else c1))"

text \<open>
  \<^verbatim>\<open>reconnect\<close> sets the timer from the current timeout and emits the wait with the
  same timeout. The callback of the timer is \<open>reconnect_timeout\<close>; \<open>apply_backoff\<close> is
  its first statement.
\<close>

definition reconnect :: "client \<Rightarrow> client" where
  "reconnect c =
     (let c1 = c\<lparr>timers := timers c @ [reconnectTimeout (session c)]\<rparr>
      in emit_STATE WAITING_TO_RECONNECT (Some (reconnectTimeout (session c1))) c1)"

definition apply_backoff :: "session_t \<Rightarrow> session_t" where
  "apply_backoff s =
     (if backoff s
      then (let s1 = (if reconnectTimeout s < 1 then s\<lparr>reconnectTimeout := 1\<rparr> else s);
                s2 = s1\<lparr>reconnectTimeout := reconnectTimeout s1 * 2\<rparr>
            in if reconnectTimeout s2 > maxReconnectTimeout s2
               then s2\<lparr>reconnectTimeout := maxReconnectTimeout s2\<rparr>
               else s2)
      else s)"

definition reconnect_timeout :: "client \<Rightarrow> client" where
  "reconnect_timeout c = connect (c\<lparr>session := apply_backoff (session c)\<rparr>)"

definition authenticate :: "client \<Rightarrow> client" where
  "authenticate c =
     (let c1 = emit_STATE AUTHENTICATING None c;
          n = (case nonce (session c1) of
                 Some v \<Rightarrow> (if v \<noteq> [] then Given v else Clock)
               | None \<Rightarrow> Clock)
      in send c1 (AuthMessage (apiKey (session c1)) n (subscriptions (session c1))))"

definition authResultHandler :: "client \<Rightarrow> Status \<Rightarrow> client" where
  "authResultHandler c status =
     (case status of
        Status_AUTHENTICATED \<Rightarrow> emit_STATE CONNECTED None c
      | Status_TOKEN_EXPIRED \<Rightarrow> disconnect (emit_ERROR TOKEN_EXPIRED c)
      | Status_BAD_NONCE \<Rightarrow> disconnect (emit_ERROR BAD_NONCE c)
      | Status_BAD_TOKEN \<Rightarrow> disconnect (emit_ERROR BAD_TOKEN c)
      | Status_UNKNOWN \<Rightarrow> disconnect (emit_ERROR UNKNOWN c)
      | Status_other n \<Rightarrow> c)"

text \<open>
  \<^verbatim>\<open>handleMessage\<close>. The decoder is the codec's, a parameter: \<open>None\<close> when it
  throws.
\<close>

definition handleMessage :: "(8 word list \<Rightarrow> StreamMessage option) \<Rightarrow> client \<Rightarrow> 8 word list \<Rightarrow> client" where
  "handleMessage decode c data =
     (if length data = 1 \<and> data ! 0 = 1 then c
      else (case decode data of
              None \<Rightarrow> emit_ERROR PROTOBUF c
            | Some message \<Rightarrow>
                (case message of
                   authenticationResult status \<Rightarrow> authResultHandler c status
                 | marketUpdate u \<Rightarrow> emit_other (Emit_MARKET_UPDATE u) c
                 | pairUpdate u \<Rightarrow> emit_other (Emit_PAIR_UPDATE u) c
                 | other_body \<Rightarrow> emit_ERROR PROTOBUF c)))"

text \<open>The handlers \<^verbatim>\<open>connect\<close> registers for the close and the error of a WebSocket.\<close>

definition on_close :: "client \<Rightarrow> client" where
  "on_close c =
     (let c1 = emit_STATE DISCONNECTED None c
      in if reconnect_opt (session c1) \<and> \<not> reconnectDisabled c1 then reconnect c1 else c1)"

definition on_error :: "client \<Rightarrow> client" where
  "on_error c =
     (let c1 = emit_ERROR CONNECTION_REFUSED c;
          c2 = emit_STATE DISCONNECTED None c1
      in if reconnect_opt (session c2) then reconnect c2 else c2)"

text \<open>
  \<^verbatim>\<open>set(key, val)\<close> writes one property of the session; a key the client does not read
  changes nothing of the model.
\<close>

datatype setting =
    Set_url string | Set_apiKey string | Set_secretKey string | Set_subscriptions "string list"
  | Set_reconnect bool | Set_backoff bool | Set_reconnectTimeout rat
  | Set_maxReconnectTimeout rat | Set_verbose bool | Set_nonce "string option" | Set_other

fun set_session :: "session_t \<Rightarrow> setting \<Rightarrow> session_t" where
  "set_session s (Set_url v) = s\<lparr>url := v\<rparr>"
| "set_session s (Set_apiKey v) = s\<lparr>apiKey := v\<rparr>"
| "set_session s (Set_secretKey v) = s\<lparr>secretKey := v\<rparr>"
| "set_session s (Set_subscriptions v) = s\<lparr>subscriptions := v\<rparr>"
| "set_session s (Set_reconnect v) = s\<lparr>reconnect_opt := v\<rparr>"
| "set_session s (Set_backoff v) = s\<lparr>backoff := v\<rparr>"
| "set_session s (Set_reconnectTimeout v) = s\<lparr>reconnectTimeout := v\<rparr>"
| "set_session s (Set_maxReconnectTimeout v) = s\<lparr>maxReconnectTimeout := v\<rparr>"
| "set_session s (Set_verbose v) = s\<lparr>verbose := v\<rparr>"
| "set_session s (Set_nonce v) = s\<lparr>nonce := v\<rparr>"
| "set_session s Set_other = s"

text \<open>
  What happens to a client: a call of \<^verbatim>\<open>connect\<close>, \<^verbatim>\<open>disconnect\<close>, \<^verbatim>\<open>send\<close> or
  \<^verbatim>\<open>set\<close>; an event of the WebSocket of a given index; the expiry of the pending timer
  of a given index. A handler registered with \<^verbatim>\<open>once\<close> is removed before it runs. As
  the session object is shared, three more inputs write the session: the construction of
  another client, a call of \<^verbatim>\<open>set\<close> on another client (the same input as a call on this
  one), and the callback of a reconnect timer of another client.
\<close>

datatype input =
    Call_connect | Call_disconnect | Call_send "8 word list" | Call_set setting
  | Open nat | Message nat "8 word list" | Close nat | Error nat
  | Timeout nat
  | New_client env_t opts_t | Other_timeout

definition step :: "(8 word list \<Rightarrow> StreamMessage option) \<Rightarrow> client \<Rightarrow> input \<Rightarrow> client" where
  "step decode c i =
     (case i of
        Call_connect \<Rightarrow> connect c
      | Call_disconnect \<Rightarrow> disconnect c
      | Call_send data \<Rightarrow> send c (Raw data)
      | Call_set x \<Rightarrow> c\<lparr>session := set_session (session c) x\<rparr>
      | Open w \<Rightarrow>
          (if w < length (sockets c) \<and> once_open (sockets c ! w)
           then authenticate (c\<lparr>sockets := (sockets c)[w := (sockets c ! w)\<lparr>once_open := False\<rparr>]\<rparr>)
           else c)
      | Message w data \<Rightarrow>
          (if w < length (sockets c) then handleMessage decode c data else c)
      | Close w \<Rightarrow>
          (if w < length (sockets c) \<and> once_close (sockets c ! w)
           then on_close (c\<lparr>sockets := (sockets c)[w := (sockets c ! w)\<lparr>once_close := False\<rparr>]\<rparr>)
           else c)
      | Error w \<Rightarrow>
          (if w < length (sockets c) \<and> once_error (sockets c ! w)
           then on_error (c\<lparr>sockets := (sockets c)[w := (sockets c ! w)\<lparr>once_error := False\<rparr>]\<rparr>)
           else c)
      | Timeout k \<Rightarrow>
          (if k < length (timers c)
           then reconnect_timeout (c\<lparr>timers := take k (timers c) @ drop (Suc k) (timers c)\<rparr>)
           else c)
      | New_client env opts \<Rightarrow> c\<lparr>session := fst (constructor env (session c) opts)\<rparr>
      | Other_timeout \<Rightarrow> c\<lparr>session := apply_backoff (session c)\<rparr>)"

fun run :: "(8 word list \<Rightarrow> StreamMessage option) \<Rightarrow> client \<Rightarrow> input list \<Rightarrow> client" where
  "run decode c [] = c"
| "run decode c (i # is) = run decode (step decode c i) is"

text \<open>The delays of the waits emitted, in order.\<close>

fun waits :: "emitted_t list \<Rightarrow> rat list" where
  "waits [] = []"
| "waits (Emit_STATE WAITING_TO_RECONNECT (Some d) # es) = d # waits es"
| "waits (e # es) = waits es"

text \<open>
  The statuses for which \<^verbatim>\<open>authResultHandler\<close> disconnects.
\<close>

fun auth_failure :: "Status \<Rightarrow> bool" where
  "auth_failure Status_TOKEN_EXPIRED = True"
| "auth_failure Status_BAD_NONCE = True"
| "auth_failure Status_BAD_TOKEN = True"
| "auth_failure Status_UNKNOWN = True"
| "auth_failure Status_AUTHENTICATED = False"
| "auth_failure (Status_other n) = False"

text \<open>
  The inputs of a connection that lives on: the open of a WebSocket, a message that does
  not decode to a failed authentication, bytes sent by the caller.
\<close>

fun benign :: "(8 word list \<Rightarrow> StreamMessage option) \<Rightarrow> input \<Rightarrow> bool" where
  "benign decode (Open w) = True"
| "benign decode (Message w data) =
     (case decode data of
        Some (authenticationResult status) \<Rightarrow> \<not> auth_failure status
      | _ \<Rightarrow> True)"
| "benign decode (Call_send data) = True"
| "benign decode i = False"



text \<open>A decoder for the example runs: every payload decodes to the given message.\<close>

definition decode_as :: "StreamMessage \<Rightarrow> 8 word list \<Rightarrow> StreamMessage option" where
  "decode_as m data = Some m"

definition sample_session :: session_t where
  "sample_session = defaultOptions\<lparr>apiKey := ''key'', secretKey := ''c2VjcmV0''\<rparr>"

text \<open>
  The inputs that are neither a call of \<^verbatim>\<open>connect\<close>, nor the expiry of a timer of this
  client, nor an error event of a WebSocket.
\<close>

fun quiet :: "input \<Rightarrow> bool" where
  "quiet Call_connect = False"
| "quiet (Error w) = False"
| "quiet (Timeout k) = False"
| "quiet i = True"

section \<open>Lemmas about the multiplexer\<close>

lemma u_subscribe_Nil: "u_subscribe ch [] = []"
  by (simp add: u_subscribe.simps)

lemma u_subscribe_Cons:
  "ps \<noteq> [] \<Longrightarrow>
   u_subscribe ch ps = (socket ch, subscribeMessage_of ch (take 100 ps)) # u_subscribe ch (drop 100 ps)"
  by (subst u_subscribe.simps) simp

lemma u_subscribe_concat: "concat (map (pair \<circ> snd) (u_subscribe ch ps)) = ps"
proof (induction ch ps rule: u_subscribe.induct)
  case (1 ch ps)
  show ?case
  proof (cases "ps = []")
    case True
    then show ?thesis by (simp add: u_subscribe_Nil)
  next
    case False
    with 1 show ?thesis
      by (simp add: u_subscribe_Cons subscribeMessage_of_def)
  qed
qed

lemma u_subscribe_sizes:
  "map (length \<circ> pair \<circ> snd) (u_subscribe ch ps) =
     replicate (length ps div 100) 100 @ (if length ps mod 100 = 0 then [] else [length ps mod 100])"
proof (induction ch ps rule: u_subscribe.induct)
  case (1 ch ps)
  show ?case
  proof (cases "ps = []")
    case True
    then show ?thesis by (simp add: u_subscribe_Nil)
  next
    case False
    show ?thesis
    proof (cases "length ps < 100")
      case True
      with False show ?thesis
        by (simp add: u_subscribe_Cons u_subscribe_Nil subscribeMessage_of_def)
    next
      case ge: False
      then obtain q where q: "length ps = 100 + q" 
        by (metis le_add_diff_inverse not_less)
      have d: "length (drop 100 ps) = q" using q by simp
      have t: "length (take 100 ps) = 100" using q by simp
      have dv: "(100 + q) div 100 = Suc (q div 100)" by simp
      have md: "(100 + q) mod 100 = q mod 100" by simp
      have IH: "map (length \<circ> pair \<circ> snd) (u_subscribe ch (drop 100 ps)) =
         replicate (q div 100) 100 @ (if q mod 100 = 0 then [] else [q mod 100])"
        using 1 [OF False [folded length_0_conv]] unfolding d .
      have "map (length \<circ> pair \<circ> snd) (u_subscribe ch ps) =
          100 # map (length \<circ> pair \<circ> snd) (u_subscribe ch (drop 100 ps))"
        using False t by (simp add: u_subscribe_Cons subscribeMessage_of_def)
      also have "\<dots> = replicate (Suc (q div 100)) 100 @ (if q mod 100 = 0 then [] else [q mod 100])"
        unfolding IH by simp
      finally show ?thesis
        unfolding q dv md .
    qed
  qed
qed

lemma u_subscribe_all:
  "list_all (\<lambda>x. fst x = socket ch \<and> event (snd x) = EVENTS_SUBSCRIBE \<and>
      subscription (snd x) = subscription_of ch \<and> pair (snd x) \<noteq> [] \<and> length (pair (snd x)) \<le> 100)
     (u_subscribe ch ps)"
proof (induction ch ps rule: u_subscribe.induct)
  case (1 ch ps)
  show ?case
  proof (cases "ps = []")
    case True
    then show ?thesis by (simp add: u_subscribe_Nil)
  next
    case False
    with 1 show ?thesis
      by (simp add: u_subscribe_Cons subscribeMessage_of_def)
  qed
qed

lemma map_of_fold_update:
  "map_of (fold (\<lambda>(k, v) obj. AList.update k v obj) xs acc) = map_of acc ++ map_of (rev xs)"
proof (induction xs arbitrary: acc)
  case Nil
  then show ?case by simp
next
  case (Cons x xs)
  obtain k v where x: "x = (k, v)" by (cases x)
  show ?case
    by (simp add: Cons x update_conv' map_add_def fun_eq_iff split: option.splits)
qed

lemma subscription_of_map:
  "map_of (subscription_of ch) = [''name'' \<mapsto> channelName ch] ++ map_of (rev (options ch))"
  by (simp add: subscription_of_def map_of_fold_update)


lemma Map_has_set: "Map_has (Map_set m k v) k' = (k' = k \<or> Map_has m k')"
  by (simp add: Map_has_def Map_set_def update_conv')

lemma Map_get_set: "Map_get (Map_set m k v) k' = (if k' = k then Some v else Map_get m k')"
  by (simp add: Map_get_def Map_set_def update_conv')

lemma Map_has_keys: "Map_has m k = (k \<in> set (Map_keys m))"
  by (simp add: Map_has_def Map_keys_def map_of_eq_None_iff)

lemma Map_has_get: "Map_has m k = (Map_get m k \<noteq> None)"
  by (simp add: Map_has_def Map_get_def)

lemma Map_keys_set:
  "Map_keys (Map_set m k v) = (if Map_has m k then Map_keys m else Map_keys m @ [k])"
  by (simp add: Map_has_keys) (simp add: Map_keys_def Map_set_def update_keys)

lemma Map_get_push:
  "Map_get (push_listener m k cb) k' =
     (if k' = k then map_option (\<lambda>fns. fns @ [cb]) (Map_get m k) else Map_get m k')"
  by (simp add: push_listener_def Map_get_set split: option.splits)

lemma Map_keys_push: "Map_keys (push_listener m k cb) = Map_keys m"
  by (simp add: push_listener_def Map_keys_set Map_has_get split: option.splits)

lemma subscribe_pair_get:
  "Map_get (fst (subscribe_pair cb p (m, pend))) k =
     (if k = p then Some ((case Map_get m p of Some fns \<Rightarrow> fns | None \<Rightarrow> []) @ [cb])
      else Map_get m k)"
  by (auto simp: subscribe_pair_def Map_get_push Map_get_set Map_has_get split: option.splits)

lemma subscribe_pair_pending:
  "snd (subscribe_pair cb p (m, pend)) = (if Map_has m p then pend else pend @ [p])"
  by (simp add: subscribe_pair_def)

lemma subscribe_pair_keys:
  "Map_keys (fst (subscribe_pair cb p (m, pend))) =
     (if Map_has m p then Map_keys m else Map_keys m @ [p])"
  by (simp add: subscribe_pair_def Map_keys_push Map_keys_set)

lemma subscribe_pair_has:
  "Map_has (fst (subscribe_pair cb p (m, pend))) k = (k = p \<or> Map_has m k)"
  by (auto simp: Map_has_keys subscribe_pair_keys)

lemma fold_subscribe_pair_pending:
  "distinct ks \<Longrightarrow>
   snd (fold (subscribe_pair cb) ks (m, pend)) = pend @ filter (\<lambda>k. \<not> Map_has m k) ks"
proof (induction ks arbitrary: m pend)
  case Nil
  then show ?case by simp
next
  case (Cons k ks)
  obtain m1 pend1 where s: "subscribe_pair cb k (m, pend) = (m1, pend1)"
    by (cases "subscribe_pair cb k (m, pend)")
  have h: "\<And>k'. Map_has m1 k' = (k' = k \<or> Map_has m k')"
    using subscribe_pair_has [of cb k m pend] by (simp add: s)
  have p: "pend1 = (if Map_has m k then pend else pend @ [k])"
    using subscribe_pair_pending [of cb k m pend] by (simp add: s)
  have f: "filter (\<lambda>k'. \<not> Map_has m1 k') ks = filter (\<lambda>k'. \<not> Map_has m k') ks"
    using Cons.prems by (intro filter_cong) (auto simp: h)
  from Cons.prems have "distinct ks" by simp
  from Cons.IH [OF this, of m1 pend1] show ?case
    by (simp add: s f p)
qed

lemma fold_subscribe_pair_distinct:
  "distinct (Map_keys m) \<Longrightarrow> distinct (Map_keys (fst (fold (subscribe_pair cb) ks (m, pend))))"
proof (induction ks arbitrary: m pend)
  case Nil
  then show ?case by simp
next
  case (Cons k ks)
  obtain m1 pend1 where s: "subscribe_pair cb k (m, pend) = (m1, pend1)"
    by (cases "subscribe_pair cb k (m, pend)")
  have "distinct (Map_keys m1)"
    using subscribe_pair_keys [of cb k m pend] Cons.prems by (simp add: s Map_has_keys)
  from Cons.IH [OF this, of pend1] show ?case by (simp add: s)
qed

lemma fold_subscribe_pair_prefix:
  "Map_get m k = Some fns \<Longrightarrow>
   \<exists>rest. Map_get (fst (fold (subscribe_pair cb) ks (m, pend))) k = Some (fns @ rest)"
proof (induction ks arbitrary: m pend fns)
  case Nil
  then show ?case by simp
next
  case (Cons p ks)
  obtain m1 pend1 where s: "subscribe_pair cb p (m, pend) = (m1, pend1)"
    by (cases "subscribe_pair cb p (m, pend)")
  have "\<exists>rest1. Map_get m1 k = Some (fns @ rest1)"
    using subscribe_pair_get [of cb p m pend k] Cons.prems by (auto simp: s)
  then obtain rest1 where "Map_get m1 k = Some (fns @ rest1)" ..
  from Cons.IH [OF this, of pend1] show ?case by (auto simp: s)
qed

lemma subscribe_resubscribe:
  "subscribe ch pairs cb True = (ch, u_subscribe ch (pairsArray_of pairs))"
  by (simp add: subscribe_def Let_def)

lemma subscribe_new:
  "subscribe ch pairs cb False =
     (ch\<lparr>pairListeners := fst (fold (subscribe_pair cb) (pairsArray_of pairs) (pairListeners ch, []))\<rparr>,
      u_subscribe (ch\<lparr>pairListeners := fst (fold (subscribe_pair cb) (pairsArray_of pairs) (pairListeners ch, []))\<rparr>)
        (snd (fold (subscribe_pair cb) (pairsArray_of pairs) (pairListeners ch, []))))"
  by (simp add: subscribe_def Let_def split: prod.splits)

lemma setSocket_eq:
  "setSocket ch sock = (ch\<lparr>socket := sock\<rparr>, u_subscribe (ch\<lparr>socket := sock\<rparr>) (Map_keys (pairListeners ch)))"
  by (simp add: setSocket_def subscribe_resubscribe Let_def)

lemma chan_step_prefix:
  "Map_get (pairListeners ch) k = Some fns \<Longrightarrow>
   \<exists>rest. Map_get (pairListeners (fst (chan_step ch x))) k = Some (fns @ rest)"
proof (cases x)
  case (Subscribe pairs cb re)
  assume g: "Map_get (pairListeners ch) k = Some fns"
  show ?thesis
  proof (cases re)
    case True
    with g Subscribe show ?thesis by (simp add: subscribe_resubscribe)
  next
    case False
    with Subscribe fold_subscribe_pair_prefix [OF g] show ?thesis
      by (simp add: subscribe_new)
  qed
next
  case (SetSocket sock)
  assume "Map_get (pairListeners ch) k = Some fns"
  with SetSocket show ?thesis by (simp add: setSocket_eq)
qed

lemma chan_run_prefix:
  "Map_get (pairListeners ch) k = Some fns \<Longrightarrow>
   \<exists>rest. Map_get (pairListeners (fst (chan_run ch xs))) k = Some (fns @ rest)"
proof (induction xs arbitrary: ch fns)
  case Nil
  then show ?case by simp
next
  case (Cons x xs)
  from chan_step_prefix [OF Cons.prems] obtain rest1 where
    m1: "Map_get (pairListeners (fst (chan_step ch x))) k = Some (fns @ rest1)" ..
  from Cons.IH [OF m1] obtain rest2 where
    "Map_get (pairListeners (fst (chan_run (fst (chan_step ch x)) xs))) k = Some ((fns @ rest1) @ rest2)" ..
  then show ?case by (auto simp: split_beta Let_def)
qed

lemma chan_step_distinct:
  "distinct (Map_keys (pairListeners ch)) \<Longrightarrow>
   distinct (Map_keys (pairListeners (fst (chan_step ch x))))"
  by (cases x; cases "case x of Subscribe p c r \<Rightarrow> r | _ \<Rightarrow> True")
     (auto simp: subscribe_resubscribe subscribe_new setSocket_eq fold_subscribe_pair_distinct)

lemma chan_run_distinct:
  "distinct (Map_keys (pairListeners ch)) \<Longrightarrow>
   distinct (Map_keys (pairListeners (fst (chan_run ch xs))))"
proof (induction xs arbitrary: ch)
  case Nil
  then show ?case by simp
next
  case (Cons x xs)
  from Cons.IH [OF chan_step_distinct [OF Cons.prems]] show ?case
    by (simp add: split_beta Let_def)
qed


lemma ceil100: "(n::nat) div 100 + (if n mod 100 = 0 then 0 else 1) = (n + 99) div 100"
proof -
  obtain q r where n: "n = 100 * q + r" and r: "r < 100"
    by (metis mod_less_divisor mult_div_mod_eq zero_less_numeral)
  show ?thesis
  proof (cases "r = 0")
    case True
    then show ?thesis by (simp add: n)
  next
    case False
    then have "(100 * q + r + 99) div 100 = q + 1"
      using r by (intro div_nat_eqI) simp_all
    with False r show ?thesis by (simp add: n)
  qed
qed

lemma u_subscribe_length: "length (u_subscribe ch ps) = (length ps + 99) div 100"
proof -
  have "length (u_subscribe ch ps) = length (map (length \<circ> pair \<circ> snd) (u_subscribe ch ps))"
    by simp
  also have "\<dots> = length ps div 100 + (if length ps mod 100 = 0 then 0 else 1)"
    unfolding u_subscribe_sizes by simp
  finally show ?thesis
    by (simp only: ceil100)
qed

lemma forEach_call_two:
  "take 2 (fst (forEach_call (Fn f1 # Fn f2 # rest) d)) = [(f1, d), (f2, d)]"
  by (simp add: split_beta)

lemma distinct_sample_keys: "distinct (sample_keys n)"
proof -
  have "inj_on (\<lambda>i. replicate (Suc i) (CHR ''k'')) (set [0..<n])"
  proof (rule inj_onI)
    fix i j :: nat
    assume "replicate (Suc i) (CHR ''k'') = replicate (Suc j) (CHR ''k'')"
    then have "length (replicate (Suc i) (CHR ''k'')) = length (replicate (Suc j) (CHR ''k''))"
      by (rule arg_cong)
    then show "i = j" by simp
  qed
  then show ?thesis
    by (simp add: sample_keys_def distinct_map)
qed

section \<open>Claims about the multiplexer\<close>

text \<open>
  C6. Handing a channel a fresh connection with \<^verbatim>\<open>setSocket\<close> replaces the socket
  and sends every registered key again, whether or not it was sent before: the keys of
  the requests, in order, are the keys of \<^verbatim>\<open>pairListeners\<close>; every request goes to the
  new socket and holds between 1 and 100 keys; the registrations are unchanged. The keys
  of a channel built from a new one by any operations are distinct, so \<open>N\<close> registered
  keys are \<open>N\<close> keys sent.
\<close>

theorem setSocket_replays:
  "socket (fst (setSocket ch sock)) = sock \<and>
   pairListeners (fst (setSocket ch sock)) = pairListeners ch \<and>
   concat (map (pair \<circ> snd) (snd (setSocket ch sock))) = Map_keys (pairListeners ch) \<and>
   list_all (\<lambda>x. fst x = sock \<and> event (snd x) = EVENTS_SUBSCRIBE \<and>
                 pair (snd x) \<noteq> [] \<and> length (pair (snd x)) \<le> 100)
            (snd (setSocket ch sock)) \<and>
   length (snd (setSocket ch sock)) = (length (Map_keys (pairListeners ch)) + 99) div 100 \<and>
   distinct (Map_keys (pairListeners (fst (chan_run (new_Channel sock0 name opts) xs))))"
proof -
  have a: "list_all (\<lambda>x. fst x = sock \<and> event (snd x) = EVENTS_SUBSCRIBE \<and>
                 pair (snd x) \<noteq> [] \<and> length (pair (snd x)) \<le> 100)
            (u_subscribe (ch\<lparr>socket := sock\<rparr>) (Map_keys (pairListeners ch)))"
    using u_subscribe_all [of "ch\<lparr>socket := sock\<rparr>" "Map_keys (pairListeners ch)"]
    by (simp add: list_all_iff)
  have d: "distinct (Map_keys (pairListeners (fst (chan_run (new_Channel sock0 name opts) xs))))"
    by (rule chan_run_distinct) (simp add: new_Channel_def Map_keys_def)
  show ?thesis
    using a d by (simp add: setSocket_eq u_subscribe_concat u_subscribe_length)
qed

text \<open>
  C7. Subscribing a key that is not registered twice, with two listeners, sends one
  request, holding that key once; both listeners are registered, in order, and an update
  whose last element is the key calls both, in that order, with the normalized update.
  After any further operations on the channel the two are still the first listeners
  called.
\<close>

theorem subscribe_twice:
  assumes "\<not> Map_has (pairListeners ch) k"
  shows "map (pair \<circ> snd)
           (snd (chan_run ch [Subscribe (Single k) (Fn f1) False, Subscribe (Single k) (Fn f2) False]))
         = [[k]] \<and>
    Map_get (pairListeners
       (fst (chan_run ch [Subscribe (Single k) (Fn f1) False, Subscribe (Single k) (Fn f2) False]))) k
         = Some [Fn f1, Fn f2] \<and>
    (\<forall>message. last_elem message = Some (Str k) \<longrightarrow>
       onMessageUpdate normalizeMessage
         (fst (chan_run ch [Subscribe (Single k) (Fn f1) False, Subscribe (Single k) (Fn f2) False]))
         message = ([(f1, normalizeMessage message), (f2, normalizeMessage message)], None)) \<and>
    (\<forall>xs message. last_elem message = Some (Str k) \<longrightarrow>
       take 2 (fst (onMessageUpdate normalizeMessage
         (fst (chan_run ch ([Subscribe (Single k) (Fn f1) False, Subscribe (Single k) (Fn f2) False] @ xs)))
         message)) = [(f1, normalizeMessage message), (f2, normalizeMessage message)])"
proof -
  let ?two = "[Subscribe (Single k) (Fn f1) False, Subscribe (Single k) (Fn f2) False]"
  let ?m1 = "fst (subscribe_pair (Fn f1) k (pairListeners ch, []))"
  let ?m2 = "fst (subscribe_pair (Fn f2) k (?m1, []))"
  let ?ch1 = "ch\<lparr>pairListeners := ?m1\<rparr>"
  let ?ch2 = "ch\<lparr>pairListeners := ?m2\<rparr>"
  have none: "Map_get (pairListeners ch) k = None"
    using assms by (simp add: Map_has_get)
  have p1: "snd (subscribe_pair (Fn f1) k (pairListeners ch, [])) = [k]"
    using assms by (simp add: subscribe_pair_pending)
  have h1: "Map_has ?m1 k" by (simp add: subscribe_pair_has)
  have p2: "snd (subscribe_pair (Fn f2) k (?m1, [])) = []"
    using h1 by (simp add: subscribe_pair_pending)
  have g1: "Map_get ?m1 k = Some [Fn f1]"
    by (simp add: subscribe_pair_get none)
  have g2: "Map_get ?m2 k = Some [Fn f1, Fn f2]"
    by (simp add: subscribe_pair_get none)
  have s1: "subscribe ch (Single k) (Fn f1) False = (?ch1, u_subscribe ?ch1 [k])"
    by (simp add: subscribe_new p1)
  have s2: "subscribe ?ch1 (Single k) (Fn f2) False = (?ch2, [])"
    by (simp add: subscribe_new p2 u_subscribe_Nil)
  have r: "chan_run ch ?two = (?ch2, u_subscribe ?ch1 [k])"
    by (simp add: s1 s2)
  have sent: "map (pair \<circ> snd) (u_subscribe ?ch1 [k]) = [[k]]"
    by (simp add: u_subscribe_Cons u_subscribe_Nil subscribeMessage_of_def)
  have now: "onMessageUpdate normalizeMessage ?ch2 message = ([(f1, normalizeMessage message), (f2, normalizeMessage message)], None)"
    if "last_elem message = Some (Str k)" for message
    using that g2 by (simp add: onMessageUpdate_def Map_has_get)
  have later: "take 2 (fst (onMessageUpdate normalizeMessage (fst (chan_run ch (?two @ xs))) message))
       = [(f1, normalizeMessage message), (f2, normalizeMessage message)]"
    if l: "last_elem message = Some (Str k)" for xs message
  proof -
    have "Map_get (pairListeners ?ch2) k = Some [Fn f1, Fn f2]" using g2 by simp
    from chan_run_prefix [OF this, of xs] obtain rest where
      m: "Map_get (pairListeners (fst (chan_run ?ch2 xs))) k = Some ([Fn f1, Fn f2] @ rest)" ..
    have e: "fst (chan_run ch (?two @ xs)) = fst (chan_run ?ch2 xs)"
      by (simp add: s1 s2 split_beta)
    show ?thesis
      unfolding e using l m by (simp add: onMessageUpdate_def Map_has_get split_beta)
  qed
  show ?thesis
    using sent g2 now later unfolding r by simp
qed

theorem subscribe_twice_witness:
  "\<not> Map_has (pairListeners (new_Channel 0 ''ticker'' [])) ''XBT/USD'' \<and>
   map (pair \<circ> snd)
     (snd (chan_run (new_Channel 0 ''ticker'' [])
        [Subscribe (Single ''XBT/USD'') (Fn 1) False, Subscribe (Single ''XBT/USD'') (Fn 2) False]))
     = [[''XBT/USD'']] \<and>
   onMessageUpdate id
     (fst (chan_run (new_Channel 0 ''ticker'' [])
        [Subscribe (Single ''XBT/USD'') (Fn 1) False, Subscribe (Single ''XBT/USD'') (Fn 2) False]))
     [Other 42, Str ''XBT/USD'']
     = ([(1, [Other 42, Str ''XBT/USD'']), (2, [Other 42, Str ''XBT/USD''])], None)"
proof -
  have h: "\<not> Map_has (pairListeners (new_Channel 0 ''ticker'' [])) ''XBT/USD''"
    by (simp add: new_Channel_def Map_has_def)
  have l: "last_elem [Other 42, Str ''XBT/USD''] = Some (Str ''XBT/USD'')"
    by (simp add: last_elem_def)
  show ?thesis
    using h l subscribe_twice [OF h, of 1 2 id] by simp
qed

text \<open>
  C8, amended. The pending keys go out in order in requests of 100 keys, the last one
  holding the remainder: \<open>\<lceil>n / 100\<rceil>\<close> requests, none empty, none above 100 keys,
  each to the channel's socket, with the event "subscribe" and the object
  \<^verbatim>\<open>{name: channelName, ...options}\<close>. That object holds every option and, unless an
  option is itself called \<^verbatim>\<open>name\<close>, the channel name. Subscribing 250 distinct keys,
  none registered, sends 3 requests of 100, 100 and 50 keys.
\<close>

theorem batches_of_100:
  "concat (map (pair \<circ> snd) (u_subscribe ch ps)) = ps \<and>
   map (length \<circ> pair \<circ> snd) (u_subscribe ch ps) =
     replicate (length ps div 100) 100 @ (if length ps mod 100 = 0 then [] else [length ps mod 100]) \<and>
   length (u_subscribe ch ps) = (length ps + 99) div 100 \<and>
   list_all (\<lambda>x. fst x = socket ch \<and> event (snd x) = EVENTS_SUBSCRIBE \<and>
                 subscription (snd x) = subscription_of ch \<and>
                 pair (snd x) \<noteq> [] \<and> length (pair (snd x)) \<le> 100)
            (u_subscribe ch ps) \<and>
   map_of (subscription_of ch) = [''name'' \<mapsto> channelName ch] ++ map_of (rev (options ch)) \<and>
   (''name'' \<notin> fst ` set (options ch) \<longrightarrow>
      map_of (subscription_of ch) ''name'' = Some (channelName ch)) \<and>
   (distinct ks \<and> length ks = 250 \<and> set ks \<inter> set (Map_keys (pairListeners ch)) = {} \<longrightarrow>
      map (length \<circ> pair \<circ> snd) (snd (subscribe ch (Array ks) cb False)) = [100, 100, 50])"
proof -
  have nm: "map_of (subscription_of ch) ''name'' = Some (channelName ch)"
    if "''name'' \<notin> fst ` set (options ch)"
  proof -
    from that have "map_of (rev (options ch)) ''name'' = None"
      by (simp add: map_of_eq_None_iff)
    then show ?thesis
      by (simp add: subscription_of_map map_add_def)
  qed
  have big: "map (length \<circ> pair \<circ> snd) (snd (subscribe ch (Array ks) cb False)) = [100, 100, 50]"
    if d: "distinct ks" and l: "length ks = 250"
      and f: "set ks \<inter> set (Map_keys (pairListeners ch)) = {}"
  proof -
    have "filter (\<lambda>k. \<not> Map_has (pairListeners ch) k) ks = ks"
      using f by (auto simp: Map_has_keys filter_id_conv)
    then have "snd (fold (subscribe_pair cb) ks (pairListeners ch, [])) = ks"
      by (simp add: fold_subscribe_pair_pending [OF d])
    then have "map (length \<circ> pair \<circ> snd) (snd (subscribe ch (Array ks) cb False)) =
        replicate (250 div 100) 100 @ (if (250::nat) mod 100 = 0 then [] else [250 mod 100])"
      by (simp only: subscribe_new snd_conv pairsArray_of.simps u_subscribe_sizes l)
    also have "\<dots> = [100, 100, 50]"
      by (simp add: numeral_2_eq_2)
    finally show ?thesis .
  qed
  show ?thesis
  proof (intro conjI impI)
    show "concat (map (pair \<circ> snd) (u_subscribe ch ps)) = ps"
      by (rule u_subscribe_concat)
    show "map (length \<circ> pair \<circ> snd) (u_subscribe ch ps) =
      replicate (length ps div 100) 100 @ (if length ps mod 100 = 0 then [] else [length ps mod 100])"
      by (rule u_subscribe_sizes)
    show "length (u_subscribe ch ps) = (length ps + 99) div 100"
      by (rule u_subscribe_length)
    show "list_all (\<lambda>x. fst x = socket ch \<and> event (snd x) = EVENTS_SUBSCRIBE \<and>
                 subscription (snd x) = subscription_of ch \<and>
                 pair (snd x) \<noteq> [] \<and> length (pair (snd x)) \<le> 100)
            (u_subscribe ch ps)"
      by (rule u_subscribe_all)
    show "map_of (subscription_of ch) = [''name'' \<mapsto> channelName ch] ++ map_of (rev (options ch))"
      by (rule subscription_of_map)
    show "map_of (subscription_of ch) ''name'' = Some (channelName ch)"
      if "''name'' \<notin> fst ` set (options ch)"
      using that by (rule nm)
    show "map (length \<circ> pair \<circ> snd) (snd (subscribe ch (Array ks) cb False)) = [100, 100, 50]"
      if "distinct ks \<and> length ks = 250 \<and> set ks \<inter> set (Map_keys (pairListeners ch)) = {}"
      using that big by blast
  qed
qed

theorem batches_of_100_witness:
  "distinct (sample_keys 250) \<and> length (sample_keys 250) = 250 \<and>
   map (length \<circ> pair \<circ> snd)
     (snd (subscribe (new_Channel 0 ''ticker'' []) (Array (sample_keys 250)) (Fn 1) False))
     = [100, 100, 50]"
proof -
  have d: "distinct (sample_keys 250)" by (rule distinct_sample_keys)
  have l: "length (sample_keys 250) = 250" by (simp add: sample_keys_def)
  have f: "set (sample_keys 250) \<inter> set (Map_keys (pairListeners (new_Channel 0 ''ticker'' []))) = {}"
    by (simp add: new_Channel_def Map_keys_def)
  note t = batches_of_100 [of "new_Channel 0 ''ticker'' []" "[]" "sample_keys 250" "Fn 1"]
  from t have "distinct (sample_keys 250) \<and> length (sample_keys 250) = 250 \<and>
      set (sample_keys 250) \<inter> set (Map_keys (pairListeners (new_Channel 0 ''ticker'' []))) = {} \<longrightarrow>
      map (length \<circ> pair \<circ> snd)
        (snd (subscribe (new_Channel 0 ''ticker'' []) (Array (sample_keys 250)) (Fn 1) False))
        = [100, 100, 50]"
    by (elim conjE)
  with d l f show ?thesis by blast
qed

text \<open>
  C8 as stated fails for a channel whose options hold a property called \<^verbatim>\<open>name\<close>: the
  request carries that property, and the channel name is not in it.
\<close>

theorem option_name_replaces_channel_name:
  "channelName (new_Channel 0 ''ticker'' [(''name'', ''book'')]) = ''ticker'' \<and>
   u_subscribe (new_Channel 0 ''ticker'' [(''name'', ''book'')]) [''XBT/USD''] =
     [(0, \<lparr>event = ''subscribe'', pair = [''XBT/USD''], subscription = [(''name'', ''book'')]\<rparr>)]"
  by (simp add: new_Channel_def u_subscribe_Cons u_subscribe_Nil subscribeMessage_of_def
        subscription_of_def EVENTS_SUBSCRIBE_def)

section \<open>Lemmas about the client\<close>

lemmas client_defs = emit_STATE_def emit_ERROR_def emit_other_def connect_def send_def
  disconnect_def reconnect_def reconnect_timeout_def authenticate_def authResultHandler_def
  handleMessage_def on_close_def on_error_def fresh_ws_def

lemma waits_append: "waits (xs @ ys) = waits xs @ waits ys"
  by (induction xs rule: waits.induct) simp_all

lemma run_append: "run d c (xs @ ys) = run d (run d c xs) ys"
  by (induction xs arbitrary: c) simp_all





lemma quiet_step:
  assumes "quiet i" and "reconnectDisabled c"
  shows "reconnectDisabled (step d c i) \<and> timers (step d c i) = timers c \<and>
         length (sockets (step d c i)) = length (sockets c) \<and>
         waits (emitted (step d c i)) = waits (emitted c) \<and>
         conn (step d c i) = conn c"
  using assms
  by (cases i)
     (simp_all add: step_def client_defs Let_def waits_append
        split: option.splits StreamMessage.splits Status.splits)

lemma quiet_run:
  "list_all quiet is \<Longrightarrow> reconnectDisabled c \<Longrightarrow>
   reconnectDisabled (run d c is) \<and> timers (run d c is) = timers c \<and>
   length (sockets (run d c is)) = length (sockets c) \<and>
   waits (emitted (run d c is)) = waits (emitted c) \<and> conn (run d c is) = conn c"
proof (induction "is" arbitrary: c)
  case Nil
  then show ?case by simp
next
  case (Cons i "is")
  from Cons.prems have q: "quiet i" and qs: "list_all quiet is" by simp_all
  note s = quiet_step [OF q Cons.prems(2), of d]
  from s have "reconnectDisabled (step d c i)" by simp
  from Cons.IH [OF qs this] s show ?case by simp
qed

lemma benign_step:
  assumes "benign d i"
  shows "session (step d c i) = session c \<and> timers (step d c i) = timers c \<and>
         reconnectDisabled (step d c i) = reconnectDisabled c \<and>
         length (sockets (step d c i)) = length (sockets c) \<and>
         once_close (sockets (step d c i) ! k) = once_close (sockets c ! k) \<and>
         once_error (sockets (step d c i) ! k) = once_error (sockets c ! k) \<and>
         waits (emitted (step d c i)) = waits (emitted c)"
  using assms
  by (cases i)
     (auto simp: step_def client_defs Let_def waits_append nth_list_update
        split: option.splits StreamMessage.splits Status.splits)

lemma benign_run:
  "list_all (benign d) is \<Longrightarrow>
   session (run d c is) = session c \<and> timers (run d c is) = timers c \<and>
   reconnectDisabled (run d c is) = reconnectDisabled c \<and>
   length (sockets (run d c is)) = length (sockets c) \<and>
   once_close (sockets (run d c is) ! k) = once_close (sockets c ! k) \<and>
   once_error (sockets (run d c is) ! k) = once_error (sockets c ! k) \<and>
   waits (emitted (run d c is)) = waits (emitted c)"
proof (induction "is" arbitrary: c)
  case Nil
  then show ?case by simp
next
  case (Cons i "is")
  from Cons.prems have b: "benign d i" and bs: "list_all (benign d) is" by simp_all
  from Cons.IH [OF bs, of "step d c i"] benign_step [OF b, of c k] show ?case by simp
qed













lemmas eval_defs = step_def client_defs new_client_def sample_session_def defaultOptions_def
  decode_as_def apply_backoff_def Let_def



section \<open>Claims about the client\<close>




text \<open>
  C2, amended. Reaching \<^verbatim>\<open>CONNECTED\<close> does not reset the reconnect delay: the handler
  of the authenticated result emits the state and leaves the session as it is. When the
  connection then closes, after any opens and messages that do not fail the
  authentication, the reconnect sets its timer from the delay that backoff has reached and
  emits the wait with that delay, not with the base delay.
\<close>

theorem connected_keeps_delay:
  "session (authResultHandler c Status_AUTHENTICATED) = session c \<and>
   currentState (authResultHandler c Status_AUTHENTICATED) = CONNECTED \<and>
   timers (authResultHandler c Status_AUTHENTICATED) = timers c \<and>
   (list_all (benign decode) is \<and> reconnect_opt (session c) \<and> \<not> reconnectDisabled c \<and>
    w < length (sockets c) \<and> once_close (sockets c ! w) \<longrightarrow>
      timers (run decode (authResultHandler c Status_AUTHENTICATED) (is @ [Close w]))
        = timers c @ [reconnectTimeout (session c)] \<and>
      waits (emitted (run decode (authResultHandler c Status_AUTHENTICATED) (is @ [Close w])))
        = waits (emitted c) @ [reconnectTimeout (session c)])"
proof -
  let ?c1 = "authResultHandler c Status_AUTHENTICATED"
  have a: "session ?c1 = session c" "currentState ?c1 = CONNECTED" "timers ?c1 = timers c"
    "sockets ?c1 = sockets c" "reconnectDisabled ?c1 = reconnectDisabled c"
    "waits (emitted ?c1) = waits (emitted c)"
    by (simp_all add: authResultHandler_def emit_STATE_def waits_append)
  have d: "timers (run decode ?c1 (is @ [Close w])) = timers c @ [reconnectTimeout (session c)] \<and>
      waits (emitted (run decode ?c1 (is @ [Close w])))
        = waits (emitted c) @ [reconnectTimeout (session c)]"
    if h: "list_all (benign decode) is \<and> reconnect_opt (session c) \<and> \<not> reconnectDisabled c \<and>
        w < length (sockets c) \<and> once_close (sockets c ! w)"
  proof -
    let ?c2 = "run decode ?c1 is"
    from h have b: "list_all (benign decode) is" by simp
    note p = benign_run [OF b, of ?c1 w]
    have c2: "session ?c2 = session c" "timers ?c2 = timers c" "\<not> reconnectDisabled ?c2"
      "w < length (sockets ?c2)" "once_close (sockets ?c2 ! w)"
      "waits (emitted ?c2) = waits (emitted c)"
      using p a h by simp_all
    have "timers (step decode ?c2 (Close w)) = timers c @ [reconnectTimeout (session c)] \<and>
        waits (emitted (step decode ?c2 (Close w)))
          = waits (emitted c) @ [reconnectTimeout (session c)]"
      using c2 h
      by (simp add: step_def on_close_def reconnect_def emit_STATE_def Let_def waits_append)
    then show ?thesis by (simp add: run_append)
  qed
  from a(1,2,3) d show ?thesis by blast
qed

theorem connected_keeps_delay_witness:
  "list_all (benign (decode_as other_body)) [Message 1 [8, 1]] \<and>
   reconnectTimeout (session (run (decode_as other_body) (new_client sample_session)
       [Call_connect, Close 0, Timeout 0, Open 1])) = 2 \<and>
   reconnectTimeout (session (authResultHandler (run (decode_as other_body) (new_client sample_session)
       [Call_connect, Close 0, Timeout 0, Open 1]) Status_AUTHENTICATED)) = 2 \<and>
   timers (run (decode_as other_body)
      (authResultHandler (run (decode_as other_body) (new_client sample_session)
         [Call_connect, Close 0, Timeout 0, Open 1]) Status_AUTHENTICATED)
      ([Message 1 [8, 1]] @ [Close 1])) = [2]"
proof -
  let ?d = "decode_as other_body"
  let ?c = "run ?d (new_client sample_session) [Call_connect, Close 0, Timeout 0, Open 1]"
  have 1: "list_all (benign ?d) [Message 1 [8, 1]] \<and> reconnect_opt (session ?c) \<and>
      \<not> reconnectDisabled ?c \<and> 1 < length (sockets ?c) \<and> once_close (sockets ?c ! 1)"
    by (simp add: eval_defs)
  have 2: "list_all (benign ?d) [Message 1 [8, 1]]" by (simp add: decode_as_def)
  have 3: "reconnectTimeout (session ?c) = 2" by (simp add: eval_defs)
  have 4: "timers ?c = []" by (simp add: eval_defs)
  from connected_keeps_delay [of ?c ?d "[Message 1 [8, 1]]" 1] 1 2 3 4 show ?thesis by simp
qed

text \<open>
  C2 as stated fails: with the base delay 1, after one failed connection and a successful
  one the delay is 2, and the reconnect that follows the close of the successful
  connection waits 2 seconds.
\<close>

theorem delay_not_reset:
  "reconnectTimeout sample_session = 1 \<and>
   currentState (run (decode_as (authenticationResult Status_AUTHENTICATED))
       (new_client sample_session)
       [Call_connect, Close 0, Timeout 0, Open 1, Message 1 [8, 1]]) = CONNECTED \<and>
   reconnectTimeout (session (run (decode_as (authenticationResult Status_AUTHENTICATED))
       (new_client sample_session)
       [Call_connect, Close 0, Timeout 0, Open 1, Message 1 [8, 1]])) = 2 \<and>
   timers (run (decode_as (authenticationResult Status_AUTHENTICATED))
       (new_client sample_session)
       [Call_connect, Close 0, Timeout 0, Open 1, Message 1 [8, 1], Close 1]) = [2] \<and>
   waits (emitted (run (decode_as (authenticationResult Status_AUTHENTICATED))
       (new_client sample_session)
       [Call_connect, Close 0, Timeout 0, Open 1, Message 1 [8, 1], Close 1])) = [1, 2]"
  by (simp add: eval_defs)

text \<open>
  C3, amended. After \<^verbatim>\<open>disconnect\<close>, as long as \<^verbatim>\<open>connect\<close> is not called, no timer
  of the client expires and no WebSocket raises an error, no reconnect is scheduled:
  whatever opens, messages and closes arrive, whatever is sent or written into the session
  and however often \<^verbatim>\<open>disconnect\<close> is called again, the flag
  stays set, the pending timers are the same, no WebSocket is created and no wait is
  emitted. A reconnect scheduled before the call is not cancelled: when its timer expires,
  the callback calls \<^verbatim>\<open>connect\<close>, which clears the flag and opens a new WebSocket.
\<close>

theorem disconnect_suppresses_close:
  "(list_all quiet is \<longrightarrow>
      reconnectDisabled (run decode (disconnect c) is) \<and>
      timers (run decode (disconnect c) is) = timers c \<and>
      length (sockets (run decode (disconnect c) is)) = length (sockets c) \<and>
      waits (emitted (run decode (disconnect c) is)) = waits (emitted c)) \<and>
   (k < length (timers c) \<longrightarrow>
      currentState (step decode (disconnect c) (Timeout k)) = CONNECTING \<and>
      \<not> reconnectDisabled (step decode (disconnect c) (Timeout k)) \<and>
      length (sockets (step decode (disconnect c) (Timeout k))) = Suc (length (sockets c)) \<and>
      conn (step decode (disconnect c) (Timeout k)) = Some (length (sockets c)))"
proof -
  have a: "reconnectDisabled (disconnect c)" "timers (disconnect c) = timers c"
    "length (sockets (disconnect c)) = length (sockets c)"
    "waits (emitted (disconnect c)) = waits (emitted c)"
    by (simp_all add: disconnect_def Let_def split: option.splits)
  have q: "reconnectDisabled (run decode (disconnect c) is) \<and>
      timers (run decode (disconnect c) is) = timers c \<and>
      length (sockets (run decode (disconnect c) is)) = length (sockets c) \<and>
      waits (emitted (run decode (disconnect c) is)) = waits (emitted c)" if "list_all quiet is"
    using quiet_run [OF that a(1), of decode] a(2,3,4) by simp
  have t: "currentState (step decode (disconnect c) (Timeout k)) = CONNECTING \<and>
      \<not> reconnectDisabled (step decode (disconnect c) (Timeout k)) \<and>
      length (sockets (step decode (disconnect c) (Timeout k))) = Suc (length (sockets c)) \<and>
      conn (step decode (disconnect c) (Timeout k)) = Some (length (sockets c))"
    if "k < length (timers c)"
    using that a(2,3)
    by (simp add: step_def reconnect_timeout_def connect_def emit_STATE_def Let_def)
  from q t show ?thesis by blast
qed

theorem disconnect_suppresses_close_witness:
  "list_all quiet [Close 0, Message 0 [8, 1], Close 0, Call_disconnect] \<and>
   timers (run (decode_as other_body)
      (disconnect (run (decode_as other_body) (new_client sample_session) [Call_connect, Open 0]))
      [Close 0, Message 0 [8, 1], Close 0, Call_disconnect]) = [] \<and>
   0 < length (timers (run (decode_as other_body) (new_client sample_session) [Call_connect, Close 0])) \<and>
   currentState (step (decode_as other_body)
      (disconnect (run (decode_as other_body) (new_client sample_session) [Call_connect, Close 0]))
      (Timeout 0)) = CONNECTING"
proof -
  let ?d = "decode_as other_body"
  let ?c = "run ?d (new_client sample_session) [Call_connect, Open 0]"
  let ?c' = "run ?d (new_client sample_session) [Call_connect, Close 0]"
  have 1: "list_all quiet [Close 0, Message 0 [8, 1], Close 0, Call_disconnect]" by simp
  have 2: "timers ?c = []" by (simp add: eval_defs)
  have 3: "0 < length (timers ?c')" by (simp add: eval_defs)
  from disconnect_suppresses_close [of "[Close 0, Message 0 [8, 1], Close 0, Call_disconnect]" ?d ?c 0]
    disconnect_suppresses_close [of "[]" ?d ?c' 0] 1 2 3
  show ?thesis by simp
qed

text \<open>
  C3 as stated fails for a reconnect scheduled before \<^verbatim>\<open>disconnect\<close>: its timer is
  still pending after the call, and its expiry connects again.
\<close>

theorem scheduled_reconnect_survives_disconnect:
  "timers (run (decode_as other_body) (new_client sample_session)
      [Call_connect, Close 0, Call_disconnect]) = [1] \<and>
   reconnectDisabled (run (decode_as other_body) (new_client sample_session)
      [Call_connect, Close 0, Call_disconnect]) \<and>
   currentState (run (decode_as other_body) (new_client sample_session)
      [Call_connect, Close 0, Call_disconnect, Timeout 0]) = CONNECTING \<and>
   conn (run (decode_as other_body) (new_client sample_session)
      [Call_connect, Close 0, Call_disconnect, Timeout 0]) = Some 1 \<and>
   \<not> reconnectDisabled (run (decode_as other_body) (new_client sample_session)
      [Call_connect, Close 0, Call_disconnect, Timeout 0])"
  by (simp add: eval_defs)

text \<open>
  The handler of the error event does not read the flag: an error of the WebSocket after
  \<^verbatim>\<open>disconnect\<close> schedules a reconnect.
\<close>

lemma error_after_disconnect_schedules_reconnect:
  "reconnectDisabled (run (decode_as other_body) (new_client sample_session)
      [Call_connect, Call_disconnect, Error 0]) \<and>
   timers (run (decode_as other_body) (new_client sample_session)
      [Call_connect, Call_disconnect, Error 0]) = [1]"
  by (simp add: eval_defs)




text \<open>
  C5, amended. The status \<^verbatim>\<open>UNKNOWN\<close> emits the unknown error and then disconnects:
  the flag is set and \<^verbatim>\<open>close\<close> is called on the current WebSocket. A status outside
  the enumeration reaches the \<^verbatim>\<open>default\<close> case, which does nothing: the client is
  left as it was.
\<close>

theorem unknown_status_handled:
  "emitted (authResultHandler c Status_UNKNOWN)
     = emitted c @ [Emit_ERROR UNKNOWN, Emit_CLIENT_ERROR UNKNOWN] \<and>
   reconnectDisabled (authResultHandler c Status_UNKNOWN) \<and>
   (conn c = Some w \<and> w < length (sockets c) \<longrightarrow>
      close_called (sockets (authResultHandler c Status_UNKNOWN) ! w)) \<and>
   authResultHandler c (Status_other n) = c \<and>
   (decode data = Some (authenticationResult (Status_other n)) \<longrightarrow>
      handleMessage decode c data = c)"
  by (auto simp: client_defs Let_def split: option.splits)

theorem unknown_status_handled_witness:
  "conn (connect (new_client sample_session)) = Some 0 \<and>
   close_called (sockets (authResultHandler (connect (new_client sample_session)) Status_UNKNOWN) ! 0) \<and>
   handleMessage (decode_as (authenticationResult (Status_other 5)))
      (connect (new_client sample_session)) [8, 5] = connect (new_client sample_session)"
proof -
  have a: "conn (connect (new_client sample_session)) = Some 0"
    "0 < length (sockets (connect (new_client sample_session)))"
    by (simp_all add: client_defs new_client_def Let_def)
  have b: "decode_as (authenticationResult (Status_other 5)) [8, 5]
      = Some (authenticationResult (Status_other 5))"
    by (simp add: decode_as_def)
  show ?thesis
    using a b
      unknown_status_handled [of "connect (new_client sample_session)" 0 5
        "decode_as (authenticationResult (Status_other 5))" "[8, 5]"]
    by simp
qed

text \<open>
  C5 as stated fails for a status that is not in the enumeration: no error is emitted and
  the client does not disconnect.
\<close>

theorem unrecognized_status_ignored:
  "authResultHandler (connect (new_client sample_session)) (Status_other 5)
     = connect (new_client sample_session) \<and>
   emitted (handleMessage (decode_as (authenticationResult (Status_other 5)))
      (connect (new_client sample_session)) [8, 5])
     = [Emit_STATE CONNECTING None, Emit_STATE_CHANGE CONNECTING] \<and>
   \<not> reconnectDisabled (handleMessage (decode_as (authenticationResult (Status_other 5)))
      (connect (new_client sample_session)) [8, 5])"
  by (simp add: client_defs new_client_def decode_as_def Let_def)

text \<open>
  C9. A payload of the single byte 1 is discarded, in every state of the client and for
  every decoder: the client is left as it was, so nothing is emitted and the state does
  not change.
\<close>

theorem heartbeat_discarded:
  "handleMessage decode c [1] = c \<and> step decode c (Message w [1]) = c \<and>
   emitted (handleMessage decode c [1]) = emitted c \<and>
   currentState (handleMessage decode c [1]) = currentState c"
  by (simp add: handleMessage_def step_def)

text \<open>
  C10. The constructor is not a function of the environment and its options alone: it
  writes the options into the module's \<^verbatim>\<open>defaultOptions\<close> object. With no variable in
  the environment and no options, the constructor throws the missing-api-key error on the
  object as the module defines it; after a construction that was given an api key and a
  secret key, the same call returns a client with that api key.
\<close>

theorem constructor_not_pure:
  "constructor \<lparr>CW_API_KEY = None, CW_SECRET_KEY = None\<rparr> defaultOptions no_opts
     = (defaultOptions, Inl MISSING_API_KEY) \<and>
   fst (constructor \<lparr>CW_API_KEY = None, CW_SECRET_KEY = None\<rparr> defaultOptions
          (no_opts\<lparr>opt_apiKey := Some ''key'', opt_secretKey := Some ''c2VjcmV0''\<rparr>))
     = sample_session \<and>
   constructor \<lparr>CW_API_KEY = None, CW_SECRET_KEY = None\<rparr> sample_session no_opts
     = (sample_session, Inr (new_client sample_session)) \<and>
   apiKey (session (new_client sample_session)) = ''key'' \<and>
   fst (constructor \<lparr>CW_API_KEY = None, CW_SECRET_KEY = None\<rparr> defaults opts)
     = Object_assign defaults opts"
proof -
  have a: "constructor \<lparr>CW_API_KEY = None, CW_SECRET_KEY = None\<rparr> defaultOptions no_opts
     = (defaultOptions, Inl MISSING_API_KEY)"
    by (simp add: constructor_def defaultOptions_def no_opts_def Object_assign_def Let_def)
  have b: "fst (constructor \<lparr>CW_API_KEY = None, CW_SECRET_KEY = None\<rparr> defaultOptions
          (no_opts\<lparr>opt_apiKey := Some ''key'', opt_secretKey := Some ''c2VjcmV0''\<rparr>))
     = sample_session"
    by (simp add: constructor_def defaultOptions_def no_opts_def Object_assign_def Let_def
          sample_session_def)
  have c: "constructor \<lparr>CW_API_KEY = None, CW_SECRET_KEY = None\<rparr> sample_session no_opts
     = (sample_session, Inr (new_client sample_session))"
    by (simp add: constructor_def defaultOptions_def no_opts_def Object_assign_def Let_def
          sample_session_def)
  have d: "apiKey (session (new_client sample_session)) = ''key''"
    by (simp add: sample_session_def new_client_def)
  have e: "fst (constructor \<lparr>CW_API_KEY = None, CW_SECRET_KEY = None\<rparr> defaults opts)
     = Object_assign defaults opts"
    by (simp add: constructor_def Let_def)
  from a b c d e show ?thesis by (intro conjI)
qed

end
